theory Spec2Isabelle
  imports Main
begin

section \<open>The Mixpanel command-line client: request client and pagination\<close>

text \<open>
  A shallow embedding of the request client (\<^verbatim>\<open>internal/client\<close>: endpoint
  table, constructor, retry loop, backoff), of the configuration glue of the commands
  (the root command and \<^verbatim>\<open>cmd/helpers.go\<close>) and of the auto-pagination loop of
  \<^verbatim>\<open>profiles query\<close> and \<^verbatim>\<open>profiles groups\<close>.

  Go strings are byte strings: \<^typ>\<open>string\<close>. Go \<^verbatim>\<open>int\<close> and
  \<^verbatim>\<open>time.Duration\<close> are 64-bit signed integers: they are modelled as \<^typ>\<open>int\<close>
  with the wrap-around written out (\<open>wrap64\<close>) where an operation can leave the range.
  A Go result pair \<^verbatim>\<open>(value, error)\<close> is a sum, \<open>Inl\<close> carrying the error.
\<close>

subsection \<open>Errors\<close>

datatype error =
    InvalidRegion string            \<comment> \<open>\<^verbatim>\<open>invalid region %q; must be one of: us, eu, in\<close>\<close>
  | MissingCredentials              \<comment> \<open>\<^verbatim>\<open>service_account and service_secret must be configured\<close>\<close>
  | BadToken                        \<comment> \<open>\<^verbatim>\<open>MP_TOKEN must be in the format `user:secret`\<close>\<close>
  | UnknownFamily string            \<comment> \<open>\<^verbatim>\<open>unknown API family %q\<close>\<close>
  | UnknownRegion string            \<comment> \<open>\<^verbatim>\<open>unknown region %q\<close>\<close>
  | CreatingRequest                 \<comment> \<open>\<^verbatim>\<open>creating request: %w\<close>\<close>
  | ExecutingRequest string         \<comment> \<open>\<^verbatim>\<open>executing request: %w\<close>\<close>
  | PageSizeRange                   \<comment> \<open>\<^verbatim>\<open>`--page-size` must be between 1 and 1000\<close>\<close>
  | ProjectIDRequired               \<comment> \<open>\<^verbatim>\<open>project ID is required\<close>\<close>
  | Querying string int error       \<comment> \<open>\<^verbatim>\<open>querying profiles (page %d): %w\<close>, \<^verbatim>\<open>querying group profiles ...\<close>\<close>
  | ReadingBody                     \<comment> \<open>\<^verbatim>\<open>reading response body: %w\<close>\<close>
  | APIError int                    \<comment> \<open>\<^verbatim>\<open>API error (HTTP %d): %s\<close>\<close>
  | ParsingResponse string          \<comment> \<open>\<^verbatim>\<open>parsing profiles response: %w\<close>, \<^verbatim>\<open>parsing group profiles ...\<close>\<close>
  | EngageStatus string             \<comment> \<open>\<^verbatim>\<open>engage API returned status %q\<close>\<close>
  | NilDereference                  \<comment> \<open>a run-time panic: a field of a \<^verbatim>\<open>nil\<close> response is read\<close>

subsection \<open>Endpoint table (\<^verbatim>\<open>internal/client\<close>, endpoints)\<close>

definition APIFamilyQuery :: string where "APIFamilyQuery = ''query''"
definition APIFamilyExport :: string where "APIFamilyExport = ''export''"
definition APIFamilyApp :: string where "APIFamilyApp = ''app''"
definition APIFamilyIngestion :: string where "APIFamilyIngestion = ''ingestion''"

definition RegionUS :: string where "RegionUS = ''us''"
definition RegionEU :: string where "RegionEU = ''eu''"
definition RegionIN :: string where "RegionIN = ''in''"

text \<open>\<^verbatim>\<open>baseURLs\<close>: a Go map of maps, written as association lists with distinct keys.\<close>

definition baseURLs :: "(string \<times> (string \<times> string) list) list" where
  "baseURLs =
    [(APIFamilyQuery,
        [(RegionUS, ''https://mixpanel.com/api/query''),
         (RegionEU, ''https://eu.mixpanel.com/api/query''),
         (RegionIN, ''https://in.mixpanel.com/api/query'')]),
     (APIFamilyExport,
        [(RegionUS, ''https://data.mixpanel.com/api/2.0''),
         (RegionEU, ''https://data-eu.mixpanel.com/api/2.0''),
         (RegionIN, ''https://data-in.mixpanel.com/api/2.0'')]),
     (APIFamilyApp,
        [(RegionUS, ''https://mixpanel.com/api/app''),
         (RegionEU, ''https://eu.mixpanel.com/api/app''),
         (RegionIN, ''https://in.mixpanel.com/api/app'')]),
     (APIFamilyIngestion,
        [(RegionUS, ''https://api.mixpanel.com''),
         (RegionEU, ''https://api-eu.mixpanel.com''),
         (RegionIN, ''https://api-in.mixpanel.com'')])]"

definition ResolveURL :: "string \<Rightarrow> string \<Rightarrow> error + string" where
  "ResolveURL family region =
     (case map_of baseURLs family of
        None \<Rightarrow> Inl (UnknownFamily family)
      | Some regions \<Rightarrow>
          (case map_of regions region of
             None \<Rightarrow> Inl (UnknownRegion region)
           | Some url \<Rightarrow> Inr url))"

definition ValidRegion :: "string \<Rightarrow> bool" where
  "ValidRegion r = (r = RegionUS \<or> r = RegionEU \<or> r = RegionIN)"

text \<open>The twelve pairs of the table, as the specification counts them.\<close>

definition families :: "string list" where
  "families = [APIFamilyQuery, APIFamilyExport, APIFamilyApp, APIFamilyIngestion]"

definition regions_list :: "string list" where
  "regions_list = [RegionUS, RegionEU, RegionIN]"

definition in_table :: "string \<Rightarrow> string \<Rightarrow> bool" where
  "in_table family region = (family \<in> set families \<and> region \<in> set regions_list)"

subsection \<open>Machine integers and durations\<close>

definition wrap64 :: "int \<Rightarrow> int" where
  \<comment> \<open>the value a 64-bit signed integer holds after an operation whose exact result is \<open>x\<close>\<close>
  "wrap64 x = (x + 2 ^ 63) mod 2 ^ 64 - 2 ^ 63"

definition Second :: int where
  \<comment> \<open>\<^verbatim>\<open>time.Second\<close>: a \<^verbatim>\<open>time.Duration\<close> counts nanoseconds\<close>
  "Second = 1000000000"

subsection \<open>The client and its constructor (\<^verbatim>\<open>client.New\<close>)\<close>

record client =
  timeout :: int      \<comment> \<open>\<^verbatim>\<open>httpClient.Timeout\<close>\<close>
  auth :: string      \<comment> \<open>base64 of \<^verbatim>\<open>user:secret\<close>\<close>
  region :: string
  projectID :: string
  debug :: bool

text \<open>
  \<^verbatim>\<open>base64.StdEncoding.EncodeToString\<close> of the standard library is the parameter
  \<open>b64\<close>; nothing below depends on what it computes.
\<close>

definition New ::
  "(string \<Rightarrow> string) \<Rightarrow> string \<Rightarrow> string \<Rightarrow> string \<Rightarrow> string \<Rightarrow> bool \<Rightarrow> error + client" where
  "New b64 serviceAccount serviceSecret rgn pid dbg =
     (if \<not> ValidRegion rgn then Inl (InvalidRegion rgn)
      else if serviceAccount = [] \<or> serviceSecret = [] then Inl MissingCredentials
      else Inr \<lparr>timeout = 120 * Second,
                auth = b64 (serviceAccount @ '':'' @ serviceSecret),
                region = rgn, projectID = pid, debug = dbg\<rparr>)"

subsection \<open>Configuration glue of the commands (\<^verbatim>\<open>cmd\<close>)\<close>

text \<open>
  What a command reads of its surroundings: the values \<^verbatim>\<open>viper.GetString\<close> returns for
  the four keys (flag, \<^verbatim>\<open>MP_\<close>-prefixed environment variable or configuration file,
  the empty string when the key is not set) and the values \<^verbatim>\<open>os.Getenv\<close> returns (the
  empty string when the variable is unset or empty).
\<close>

record config =
  v_service_account :: string    \<comment> \<open>\<^verbatim>\<open>viper.GetString("service_account")\<close>\<close>
  v_service_secret :: string     \<comment> \<open>\<^verbatim>\<open>viper.GetString("service_secret")\<close>\<close>
  v_region :: string             \<comment> \<open>\<^verbatim>\<open>viper.GetString("region")\<close>\<close>
  v_project_id :: string         \<comment> \<open>\<^verbatim>\<open>viper.GetString("project_id")\<close>\<close>
  env_MP_TOKEN :: string         \<comment> \<open>\<^verbatim>\<open>os.Getenv("MP_TOKEN")\<close>\<close>
  env_MP_DEBUG :: string         \<comment> \<open>\<^verbatim>\<open>os.Getenv("MP_DEBUG")\<close>\<close>

text \<open>
  \<^verbatim>\<open>strings.ToLower\<close>: a string of ASCII bytes only (no byte from \<^verbatim>\<open>0x80\<close> on) has
  its letters \<open>A..Z\<close> lower-cased byte by byte; any other string goes through
  \<^verbatim>\<open>Map(unicode.ToLower, s)\<close>, the Unicode case mapping of the standard library,
  which is the parameter \<open>unicode_lower\<close> (it maps, for one, the two bytes of U+0130 to
  \<^verbatim>\<open>i\<close>).
\<close>

definition upper_letters :: string where
  "upper_letters = ''ABCDEFGHIJKLMNOPQRSTUVWXYZ''"

definition lower_letters :: string where
  "lower_letters = ''abcdefghijklmnopqrstuvwxyz''"

definition toLower_byte :: "char \<Rightarrow> char" where
  "toLower_byte c = (case map_of (zip upper_letters lower_letters) c of None \<Rightarrow> c | Some l \<Rightarrow> l)"

definition isASCII :: "string \<Rightarrow> bool" where
  "isASCII s = list_all (\<lambda>c. \<not> digit7 c) s"

definition ToLower :: "(string \<Rightarrow> string) \<Rightarrow> string \<Rightarrow> string" where
  "ToLower unicode_lower s = (if isASCII s then map toLower_byte s else unicode_lower s)"

text \<open>\<^verbatim>\<open>strings.SplitN(s, sep, 2)\<close> for a one-byte separator: a split at its first occurrence.\<close>

definition SplitN2 :: "string \<Rightarrow> char \<Rightarrow> string list" where
  "SplitN2 s sep =
     (case dropWhile (\<lambda>c. c \<noteq> sep) s of
        [] \<Rightarrow> [s]
      | _ # rest \<Rightarrow> [takeWhile (\<lambda>c. c \<noteq> sep) s, rest])"

definition isDebug :: "config \<Rightarrow> bool" where
  "isDebug cfg = (env_MP_DEBUG cfg = ''1'')"

text \<open>The root command's \<^verbatim>\<open>PersistentPreRunE\<close>: \<open>None\<close> is Go's \<^verbatim>\<open>nil\<close> error.\<close>

definition PersistentPreRunE :: "(string \<Rightarrow> string) \<Rightarrow> config \<Rightarrow> error option" where
  "PersistentPreRunE unicode_lower cfg =
     (let rgn = v_region cfg in
      if rgn \<noteq> [] then
        (let rgn = ToLower unicode_lower rgn in
         if rgn \<noteq> ''us'' \<and> rgn \<noteq> ''eu'' \<and> rgn \<noteq> ''in'' then Some (InvalidRegion rgn)
         else None)
      else None)"

definition newClient :: "(string \<Rightarrow> string) \<Rightarrow> config \<Rightarrow> error + client" where
  "newClient b64 cfg =
     (let sa = v_service_account cfg;
          ss = v_service_secret cfg;
          token = env_MP_TOKEN cfg
      in case (if token \<noteq> [] then
                 (let parts = SplitN2 token CHR '':''
                  in if length parts \<noteq> 2 then Inl BadToken
                     else if parts ! 0 = [] \<or> parts ! 1 = [] then Inl BadToken
                     else Inr (parts ! 0, parts ! 1))
               else Inr (sa, ss)) of
           Inl err \<Rightarrow> Inl err
         | Inr (sa, ss) \<Rightarrow>
             (let rgn = (if v_region cfg = [] then RegionUS else v_region cfg);
                  pid = v_project_id cfg
              in New b64 sa ss rgn pid (isDebug cfg)))"

text \<open>
  A command that needs a client: cobra runs \<^verbatim>\<open>PersistentPreRunE\<close> first and the
  command's \<^verbatim>\<open>RunE\<close>, which starts with \<^verbatim>\<open>newClient()\<close>, only when that returned
  no error.
\<close>

definition command_client ::
  "(string \<Rightarrow> string) \<Rightarrow> (string \<Rightarrow> string) \<Rightarrow> config \<Rightarrow> error + client" where
  "command_client unicode_lower b64 cfg =
     (case PersistentPreRunE unicode_lower cfg of
        Some e \<Rightarrow> Inl e
      | None \<Rightarrow> newClient b64 cfg)"

definition requireProjectID :: "config \<Rightarrow> error + string" where
  "requireProjectID cfg =
     (if v_project_id cfg = [] then Inl ProjectIDRequired else Inr (v_project_id cfg))"

text \<open>
  \<^verbatim>\<open>Config.Set\<close> of \<^verbatim>\<open>internal/config\<close> (the command \<^verbatim>\<open>mp config set\<close>) on the
  key-value store; writing the file is left out.
\<close>

definition KnownKeyNames :: "string list" where
  "KnownKeyNames = [''project_id'', ''region'', ''service_account'', ''service_secret'']"

definition config_Set ::
  "(string \<Rightarrow> string) \<Rightarrow> (string \<rightharpoonup> string) \<Rightarrow> string \<Rightarrow> string \<Rightarrow>
     string + (string \<rightharpoonup> string)" where
  "config_Set unicode_lower store key val =
     (if key \<notin> set KnownKeyNames then Inl (''unknown config key '' @ key)
      else if key = ''region'' then
        (let val = ToLower unicode_lower val in
         if val \<noteq> ''us'' \<and> val \<noteq> ''eu'' \<and> val \<noteq> ''in'' then Inl (''invalid region '' @ val)
         else Inr (store(key \<mapsto> val)))
      else Inr (store(key \<mapsto> val)))"

subsection \<open>HTTP messages and the surroundings of the request client\<close>

type_synonym url_values = "(string \<times> string list) list"  \<comment> \<open>\<^verbatim>\<open>url.Values\<close>\<close>

record request =
  Method :: string
  URL :: string
  ReqHeader :: "(string \<times> string) list"
  ReqBody :: "string option"      \<comment> \<open>what the body reader holds when the request is made\<close>

record response =
  StatusCode :: int
  Header :: "(string \<times> string list) list"   \<comment> \<open>canonical header name to its values\<close>
  Body :: "string option"         \<comment> \<open>what \<^verbatim>\<open>io.ReadAll\<close> gives; \<open>None\<close> when reading fails\<close>

definition Header_Get :: "(string \<times> string list) list \<Rightarrow> string \<Rightarrow> string" where
  \<comment> \<open>\<^verbatim>\<open>http.Header.Get\<close> for a canonical key: the first value, or the empty string\<close>
  "Header_Get h key = (case map_of h key of None \<Rightarrow> [] | Some [] \<Rightarrow> [] | Some (v # _) \<Rightarrow> v)"

text \<open>
  The effects of a call: the requests handed to \<^verbatim>\<open>httpClient.Do\<close> and the
  arguments of \<^verbatim>\<open>time.Sleep\<close>, each in order. (\<^verbatim>\<open>debugf\<close> writes to standard
  error only and \<^verbatim>\<open>resp.Body.Close()\<close> releases the connection; neither is recorded.)
\<close>

record world =
  sent :: "request list"
  slept :: "int list"

text \<open>
  What the standard library and the network decide: \<^verbatim>\<open>url.Values.Encode\<close>, whether
  \<^verbatim>\<open>http.NewRequest\<close> accepts a method and a URL, what \<^verbatim>\<open>httpClient.Do\<close> returns
  for a request given the requests sent before it (an error text or a response), and the
  value the platform gives to the conversion of a \<^verbatim>\<open>float64\<close> that is out of the range
  of \<^verbatim>\<open>int64\<close> (implementation-dependent in Go).
\<close>

record env =
  Encode :: "url_values \<Rightarrow> string"
  NewRequest_ok :: "string \<Rightarrow> string \<Rightarrow> bool"
  RoundTrip :: "request list \<Rightarrow> request \<Rightarrow> string + response"
  float_conv :: "int \<Rightarrow> int"

subsection \<open>Backoff (\<^verbatim>\<open>backoff\<close>)\<close>

definition maxRetries :: int where "maxRetries = 1"

definition baseBackoffSec :: int where "baseBackoffSec = 1"

definition digit :: "char \<Rightarrow> int option" where
  "digit = map_of [(CHR ''0'', 0), (CHR ''1'', 1), (CHR ''2'', 2), (CHR ''3'', 3), (CHR ''4'', 4),
                   (CHR ''5'', 5), (CHR ''6'', 6), (CHR ''7'', 7), (CHR ''8'', 8), (CHR ''9'', 9)]"

fun decimal :: "int \<Rightarrow> string \<Rightarrow> int option" where
  "decimal n [] = Some n"
| "decimal n (c # cs) = (case digit c of None \<Rightarrow> None | Some d \<Rightarrow> decimal (10 * n + d) cs)"

text \<open>
  \<^verbatim>\<open>strconv.Atoi\<close> where \<^verbatim>\<open>int\<close> has 64 bits: an optional sign, then one or more
  decimal digits, and a value in the range of \<^verbatim>\<open>int\<close>; \<open>None\<close> is its error.
\<close>

definition Atoi :: "string \<Rightarrow> int option" where
  "Atoi s =
     (let neg = (s \<noteq> [] \<and> hd s = CHR ''-'');
          ds = (if s \<noteq> [] \<and> (hd s = CHR ''-'' \<or> hd s = CHR ''+'') then tl s else s)
      in if ds = [] then None
         else (case decimal 0 ds of
                 None \<Rightarrow> None
               | Some n \<Rightarrow>
                   (let v = (if neg then - n else n)
                    in if v < - (2 ^ 63) \<or> 2 ^ 63 - 1 < v then None else Some v)))"

text \<open>
  \<^verbatim>\<open>time.Duration(math.Pow(2, float64(attempt)) * baseBackoffSec)\<close>: the power is exact
  in \<^verbatim>\<open>float64\<close> from \<open>2 ^ 0\<close> to \<open>2 ^ 62\<close>, a negative exponent gives a value below 1,
  which the conversion truncates to 0, and from \<open>2 ^ 63\<close> on the value is out of range.
\<close>

definition pow2_duration :: "(int \<Rightarrow> int) \<Rightarrow> int \<Rightarrow> int" where
  "pow2_duration conv attempt =
     (if attempt < 0 then 0
      else if attempt \<le> 62 then 2 ^ nat attempt * baseBackoffSec
      else conv attempt)"

definition backoff :: "(int \<Rightarrow> int) \<Rightarrow> int \<Rightarrow> response \<Rightarrow> int" where
  "backoff conv attempt resp =
     (let ra = Header_Get (Header resp) ''Retry-After''
      in case (if ra \<noteq> [] then Atoi ra else None) of
           Some secs \<Rightarrow>
             if 0 < secs then wrap64 (secs * Second)
             else wrap64 (pow2_duration conv attempt * Second)
         | None \<Rightarrow> wrap64 (pow2_duration conv attempt * Second))"

subsection \<open>Sending a request (\<^verbatim>\<open>Client.do\<close>)\<close>

definition build_request :: "client \<Rightarrow> string \<Rightarrow> string \<Rightarrow> string \<Rightarrow> string option \<Rightarrow> request" where
  "build_request c method fullURL contentType body =
     \<lparr>Method = method, URL = fullURL,
      ReqHeader =
        [(''Authorization'', ''Basic '' @ auth c),
         (''Accept-Encoding'', ''gzip''),
         (''Accept'', ''application/json'')] @
        (if contentType \<noteq> [] then [(''Content-Type'', contentType)] else []),
      ReqBody = body\<rparr>"

text \<open>
  The \<^verbatim>\<open>for\<close> loop of \<^verbatim>\<open>do\<close>, from the value \<open>attempt\<close> of its counter; \<open>resp\<close>
  is the variable of that name (\<open>None\<close> is \<^verbatim>\<open>nil\<close>).
\<close>

function do_loop ::
  "env \<Rightarrow> client \<Rightarrow> string \<Rightarrow> string \<Rightarrow> string \<Rightarrow> url_values \<Rightarrow> string option \<Rightarrow> int \<Rightarrow>
     response option \<Rightarrow> world \<Rightarrow> (error + response option) \<times> world" where
  "do_loop E c method fullURL contentType form body attempt resp w =
     (if attempt \<le> maxRetries then
        (if \<not> NewRequest_ok E method fullURL then (Inl CreatingRequest, w)
         else
           (let req = build_request c method fullURL contentType body;
                w1 = w\<lparr>sent := sent w @ [req]\<rparr>
            in case RoundTrip E (sent w) req of
                 Inl err \<Rightarrow> (Inl (ExecutingRequest err), w1)
               | Inr r \<Rightarrow>
                   if StatusCode r \<noteq> 429 then (Inr (Some r), w1)
                   else if attempt < maxRetries then
                     do_loop E c method fullURL contentType form
                       (if form \<noteq> [] then Some (Encode E form) else body)
                       (attempt + 1) (Some r)
                       (w1\<lparr>slept := slept w1 @ [backoff (float_conv E) attempt r]\<rparr>)
                   else
                     do_loop E c method fullURL contentType form body (attempt + 1) (Some r) w1))
      else (Inr resp, w))"
  by pat_completeness auto
termination
  by (relation "measure (\<lambda>(E, c, method, fullURL, contentType, form, body, attempt, resp, w).
        nat (maxRetries + 1 - attempt))") auto

declare do_loop.simps [simp del]

definition client_do ::
  "env \<Rightarrow> client \<Rightarrow> string \<Rightarrow> string \<Rightarrow> string \<Rightarrow> url_values \<Rightarrow> url_values \<Rightarrow> world \<Rightarrow>
     (error + response option) \<times> world" where
  "client_do E c method apiFamily path query form w =
     (case ResolveURL apiFamily (region c) of
        Inl err \<Rightarrow> (Inl err, w)
      | Inr base \<Rightarrow>
          (let fullURL = base @ path @ (if query \<noteq> [] then ''?'' @ Encode E query else []);
               body = (if form \<noteq> [] then Some (Encode E form) else None);
               contentType = (if form \<noteq> [] then ''application/x-www-form-urlencoded'' else [])
           in do_loop E c method fullURL contentType form body 0 None w))"

definition Get ::
  "env \<Rightarrow> client \<Rightarrow> string \<Rightarrow> string \<Rightarrow> url_values \<Rightarrow> world \<Rightarrow> (error + response option) \<times> world" where
  "Get E c apiFamily path params w = client_do E c ''GET'' apiFamily path params [] w"

definition Post ::
  "env \<Rightarrow> client \<Rightarrow> string \<Rightarrow> string \<Rightarrow> url_values \<Rightarrow> world \<Rightarrow> (error + response option) \<times> world" where
  "Post E c apiFamily path params w = client_do E c ''POST'' apiFamily path [] params w"

subsection \<open>Example surroundings: a server that always throttles\<close>

definition too_many :: response where
  "too_many = \<lparr>StatusCode = 429, Header = [(''Retry-After'', [''5''])], Body = Some ''slow down''\<rparr>"

definition throttling_env :: env where
  "throttling_env =
     \<lparr>Encode = (\<lambda>_. ''page=0''), NewRequest_ok = (\<lambda>_ _. True),
      RoundTrip = (\<lambda>hist req. Inr too_many), float_conv = (\<lambda>_. 0)\<rparr>"

definition example_client :: client where
  "example_client =
     \<lparr>timeout = 120 * Second, auth = ''YWNjdDpzM2NyZXQ='', region = ''us'',
      projectID = ''42'', debug = False\<rparr>"

definition example_post :: request where
  "example_post =
     \<lparr>Method = ''POST'', URL = ''https://mixpanel.com/api/query/engage'',
      ReqHeader =
        [(''Authorization'', ''Basic YWNjdDpzM2NyZXQ=''),
         (''Accept-Encoding'', ''gzip''),
         (''Accept'', ''application/json''),
         (''Content-Type'', ''application/x-www-form-urlencoded'')],
      ReqBody = Some ''page=0''\<rparr>"

subsection \<open>Auto-pagination of the Engage API (\<^verbatim>\<open>profiles query\<close>, \<^verbatim>\<open>profiles groups\<close>)\<close>

text \<open>One page of the Engage response; \<open>'r\<close> is the type of a profile record.\<close>

record 'r engageResponse =
  Page :: int
  PageSize :: int
  SessionID :: string
  Status :: string
  Total :: int
  Results :: "'r list"

definition Values_Set :: "url_values \<Rightarrow> string \<Rightarrow> string \<Rightarrow> url_values" where
  \<comment> \<open>\<^verbatim>\<open>url.Values.Set\<close>: the key gets the one value\<close>
  "Values_Set vs key val = (key, [val]) # filter (\<lambda>kv. fst kv \<noteq> key) vs"

definition digit_char :: "nat \<Rightarrow> char" where
  "digit_char d = ''0123456789'' ! d"

fun digits_of :: "nat \<Rightarrow> string" where
  "digits_of n =
     (if n < 10 then [digit_char n] else digits_of (n div 10) @ [digit_char (n mod 10)])"

declare digits_of.simps [simp del]

definition Itoa :: "int \<Rightarrow> string" where
  \<comment> \<open>\<^verbatim>\<open>strconv.Itoa\<close>\<close>
  "Itoa i = (if i < 0 then CHR ''-'' # digits_of (nat (- i)) else digits_of (nat i))"

definition readResponseBody :: "response \<Rightarrow> error + string" where
  "readResponseBody resp =
     (case Body resp of
        None \<Rightarrow> Inl ReadingBody
      | Some body \<Rightarrow>
          if 400 \<le> StatusCode resp then Inl (APIError (StatusCode resp)) else Inr body)"

text \<open>The variables of the loop.\<close>

record 'r pstate =
  allResults :: "'r list"
  sessionID :: string
  page :: int
  totalFromAPI :: int

abbreviation loop_start :: "'r pstate" where
  "loop_start \<equiv> \<lparr>allResults = [], sessionID = [], page = 0, totalFromAPI = - 1\<rparr>"

definition page_params :: "url_values \<Rightarrow> 'r pstate \<Rightarrow> url_values" where
  "page_params baseParams st =
     (let params = Values_Set baseParams ''page'' (Itoa (page st))
      in if sessionID st \<noteq> [] then Values_Set params ''session_id'' (sessionID st) else params)"

text \<open>
  One pass through the body of the \<^verbatim>\<open>for\<close> loop. \<open>post\<close> is
  \<^verbatim>\<open>c.Post(client.APIFamilyQuery, "/engage", params)\<close> acting on the surroundings
  \<open>'w\<close>, \<open>unmarshal\<close> is \<^verbatim>\<open>json.Unmarshal\<close> into an \<^verbatim>\<open>engageResponse\<close>, and
  \<open>label\<close> is the word that tells the messages of the two commands apart. The pass ends
  the loop (\<open>Inl\<close>: an error, or the records and the total) or goes on to the next page
  (\<open>Inr\<close>). A \<^verbatim>\<open>nil\<close> response without an error would be a nil dereference.
\<close>

definition iteration ::
  "(url_values \<Rightarrow> 'w \<Rightarrow> (error + response option) \<times> 'w) \<Rightarrow> (string \<Rightarrow> 'r engageResponse option) \<Rightarrow>
     string \<Rightarrow> url_values \<Rightarrow> int \<Rightarrow> int \<Rightarrow> 'r pstate \<times> 'w \<Rightarrow>
     ((error + 'r list \<times> int) \<times> 'w) + ('r pstate \<times> 'w)" where
  "iteration post unmarshal label baseParams limit pageSize sw =
     (let st = fst sw;
          params = page_params baseParams st
      in case post params (snd sw) of
           (Inl err, w1) \<Rightarrow> Inl (Inl (Querying label (page st) err), w1)
         | (Inr None, w1) \<Rightarrow> Inl (Inl NilDereference, w1)
         | (Inr (Some resp), w1) \<Rightarrow>
             (case readResponseBody resp of
                Inl err \<Rightarrow> Inl (Inl err, w1)
              | Inr body \<Rightarrow>
                  (case unmarshal body of
                     None \<Rightarrow> Inl (Inl (ParsingResponse label), w1)
                   | Some pageResp \<Rightarrow>
                       if Status pageResp \<noteq> ''ok'' \<and> Status pageResp \<noteq> [] then
                         Inl (Inl (EngageStatus (Status pageResp)), w1)
                       else
                         (let all = allResults st @ Results pageResp;
                              total = (if totalFromAPI st < 0 then Total pageResp
                                       else totalFromAPI st)
                          in if 0 < limit \<and> limit \<le> int (length all) then
                               Inl (Inr (take (nat limit) all, total), w1)
                             else if total \<le> int (length all) then Inl (Inr (all, total), w1)
                             else if int (length (Results pageResp)) < pageSize then
                               Inl (Inr (all, total), w1)
                             else
                               Inr (\<lparr>allResults = all, sessionID = SessionID pageResp,
                                     page = wrap64 (page st + 1), totalFromAPI = total\<rparr>,
                                    w1)))))"

text \<open>The loop: \<open>None\<close> is a loop that never ends.\<close>

partial_function (option) paginate ::
  "(url_values \<Rightarrow> 'w \<Rightarrow> (error + response option) \<times> 'w) \<Rightarrow> (string \<Rightarrow> 'r engageResponse option) \<Rightarrow>
     string \<Rightarrow> url_values \<Rightarrow> int \<Rightarrow> int \<Rightarrow> 'r pstate \<times> 'w \<Rightarrow>
     ((error + 'r list \<times> int) \<times> 'w) option" where
  "paginate post unmarshal label baseParams limit pageSize sw =
     (case iteration post unmarshal label baseParams limit pageSize sw of
        Inl finished \<Rightarrow> Some finished
      | Inr sw' \<Rightarrow> paginate post unmarshal label baseParams limit pageSize sw')"

definition autoPaginate ::
  "(url_values \<Rightarrow> 'w \<Rightarrow> (error + response option) \<times> 'w) \<Rightarrow> (string \<Rightarrow> 'r engageResponse option) \<Rightarrow>
     string \<Rightarrow> url_values \<Rightarrow> int \<Rightarrow> int \<Rightarrow> 'w \<Rightarrow> ((error + 'r list \<times> int) \<times> 'w) option" where
  "autoPaginate post unmarshal label baseParams limit pageSize w =
     paginate post unmarshal label baseParams limit pageSize (loop_start, w)"

text \<open>
  The loop variables and the surroundings when the loop starts its pass number \<open>n\<close>
  (counted from 0), if it gets that far.
\<close>

fun after_pages ::
  "nat \<Rightarrow> (url_values \<Rightarrow> 'w \<Rightarrow> (error + response option) \<times> 'w) \<Rightarrow>
     (string \<Rightarrow> 'r engageResponse option) \<Rightarrow> string \<Rightarrow> url_values \<Rightarrow> int \<Rightarrow> int \<Rightarrow>
     'r pstate \<times> 'w \<Rightarrow> ('r pstate \<times> 'w) option" where
  "after_pages 0 post unmarshal label baseParams limit pageSize sw = Some sw"
| "after_pages (Suc n) post unmarshal label baseParams limit pageSize sw =
     (case iteration post unmarshal label baseParams limit pageSize sw of
        Inl finished \<Rightarrow> None
      | Inr sw' \<Rightarrow> after_pages n post unmarshal label baseParams limit pageSize sw')"

text \<open>
  \<^verbatim>\<open>runProfilesQuery\<close> and \<^verbatim>\<open>runProfilesGroups\<close> up to the end of the loop:
  \<open>flagParams\<close> are the parameters set from the command's own flags, in order, and
  \<open>label\<close> is \<^verbatim>\<open>profiles\<close> or \<^verbatim>\<open>group profiles\<close>.
\<close>

definition engage_command ::
  "env \<Rightarrow> (string \<Rightarrow> 'r engageResponse option) \<Rightarrow> (string \<Rightarrow> string) \<Rightarrow> config \<Rightarrow> string \<Rightarrow>
     (string \<times> string) list \<Rightarrow> int \<Rightarrow> int \<Rightarrow> world \<Rightarrow> ((error + 'r list \<times> int) \<times> world) option" where
  "engage_command E unmarshal b64 cfg label flagParams limit pageSize w =
     (if pageSize < 1 \<or> 1000 < pageSize then Some (Inl PageSizeRange, w)
      else
        (case newClient b64 cfg of
           Inl err \<Rightarrow> Some (Inl err, w)
         | Inr c \<Rightarrow>
             (case requireProjectID cfg of
                Inl err \<Rightarrow> Some (Inl err, w)
              | Inr pid \<Rightarrow>
                  autoPaginate (Post E c APIFamilyQuery ''/engage'') unmarshal label
                    (Values_Set
                       (fold (\<lambda>kv vs. Values_Set vs (fst kv) (snd kv)) flagParams
                          (Values_Set [] ''project_id'' pid))
                       ''page_size'' (Itoa pageSize))
                    limit pageSize w)))"

subsection \<open>Example surroundings: Engage servers\<close>

text \<open>
  A transport that counts the calls of \<^verbatim>\<open>Post\<close> (the surroundings are that count) and
  answers the first, the second and every later call with three different bodies, and
  three servers as the meaning of those bodies: one with 250 records in pages of 100, 100
  and 50; one whose second page carries the status \<^verbatim>\<open>error\<close>; one that reports the
  total 0 and has 50 records; one that reports the total 500 and has 100 records.
\<close>

definition counting_post :: "url_values \<Rightarrow> nat \<Rightarrow> (error + response option) \<times> nat" where
  "counting_post params n =
     (Inr (Some \<lparr>StatusCode = 200, Header = [],
                 Body = Some (if n = 0 then ''first'' else if n = 1 then ''second'' else ''third'')\<rparr>),
      Suc n)"

definition engage_page :: "nat \<Rightarrow> string \<Rightarrow> int \<Rightarrow> nat \<Rightarrow> (nat \<times> nat) engageResponse" where
  "engage_page k status tot m =
     \<lparr>Page = int k, PageSize = 100, SessionID = ''s1'', Status = status, Total = tot,
      Results = map (Pair k) [0..<m]\<rparr>"

definition three_pages :: "string \<Rightarrow> (nat \<times> nat) engageResponse option" where
  "three_pages body =
     (if body = ''first'' then Some (engage_page 0 ''ok'' 250 100)
      else if body = ''second'' then Some (engage_page 1 ''ok'' 250 100)
      else if body = ''third'' then Some (engage_page 2 ''ok'' 250 50)
      else None)"

definition second_page_error :: "string \<Rightarrow> (nat \<times> nat) engageResponse option" where
  "second_page_error body =
     (if body = ''first'' then Some (engage_page 0 ''ok'' 250 100)
      else if body = ''second'' then Some (engage_page 1 ''error'' 0 0)
      else None)"

definition wrong_total :: "string \<Rightarrow> (nat \<times> nat) engageResponse option" where
  "wrong_total body =
     (if body = ''first'' then Some (engage_page 0 ''ok'' 0 50) else None)"

definition overstated_total :: "string \<Rightarrow> (nat \<times> nat) engageResponse option" where
  "overstated_total body =
     (if body = ''first'' then Some (engage_page 0 ''ok'' 500 100)
      else Some (engage_page 1 ''ok'' 500 0))"

section \<open>Properties\<close>

subsection \<open>Endpoint resolution\<close>

lemma ResolveURL_in_table:
  "in_table family rgn \<Longrightarrow> \<exists>url. ResolveURL family rgn = Inr url"
  unfolding in_table_def families_def regions_list_def
  by (auto simp: ResolveURL_def baseURLs_def APIFamilyQuery_def APIFamilyExport_def
      APIFamilyApp_def APIFamilyIngestion_def RegionUS_def RegionEU_def RegionIN_def)

text \<open>
  C7. For every (family, region) pair that is not one of the twelve pairs of the table,
  \<open>ResolveURL\<close> returns the unknown-family or the unknown-region error, and so never a
  URL: there is no fallback entry.
\<close>

theorem ResolveURL_rejects_outside_table:
  "\<not> in_table family rgn \<Longrightarrow>
     ResolveURL family rgn = Inl (UnknownFamily family) \<or>
     ResolveURL family rgn = Inl (UnknownRegion rgn)"
  unfolding in_table_def families_def regions_list_def
  by (auto simp: ResolveURL_def baseURLs_def APIFamilyQuery_def APIFamilyExport_def
      APIFamilyApp_def APIFamilyIngestion_def RegionUS_def RegionEU_def RegionIN_def)

theorem ResolveURL_rejects_outside_table_witness:
  "\<not> in_table ''query'' ''US'' \<and> ResolveURL ''query'' ''US'' = Inl (UnknownRegion ''US'')
   \<and> \<not> in_table ''events'' ''us'' \<and> ResolveURL ''events'' ''us'' = Inl (UnknownFamily ''events'')"
  using ResolveURL_rejects_outside_table [of "''query''" "''US''"]
    ResolveURL_rejects_outside_table [of "''events''" "''us''"]
  unfolding in_table_def families_def regions_list_def
  by (simp add: ResolveURL_def baseURLs_def APIFamilyQuery_def APIFamilyExport_def
      APIFamilyApp_def APIFamilyIngestion_def RegionUS_def RegionEU_def RegionIN_def)

subsection \<open>Client construction\<close>

text \<open>
  C8. Whenever the account identifier or the secret is the empty string, \<open>New\<close> returns
  an error and no client, for every region value, valid or not: the invalid-region error
  when the region is not valid, the missing-credentials error otherwise.
\<close>

theorem New_fails_without_credentials:
  "serviceAccount = [] \<or> serviceSecret = [] \<Longrightarrow>
     New b64 serviceAccount serviceSecret rgn pid dbg =
       (if ValidRegion rgn then Inl MissingCredentials else Inl (InvalidRegion rgn))"
  by (auto simp: New_def)

theorem New_fails_without_credentials_witness:
  "New id [] ''s3cret'' ''eu'' ''42'' False = Inl MissingCredentials
   \<and> New id ''acct'' [] ''mars'' ''42'' False = Inl (InvalidRegion ''mars'')"
  using New_fails_without_credentials [of "[]" "''s3cret''" id "''eu''" "''42''" False]
    New_fails_without_credentials [of "''acct''" "[]" id "''mars''" "''42''" False]
  by (simp add: ValidRegion_def RegionUS_def RegionEU_def RegionIN_def)

subsection \<open>Configuration\<close>

lemma dropWhile_upto_sep:
  "sep \<notin> set a \<Longrightarrow> dropWhile (\<lambda>c. c \<noteq> sep) (a @ sep # s) = sep # s"
  by (induction a) auto

lemma takeWhile_upto_sep:
  "sep \<notin> set a \<Longrightarrow> takeWhile (\<lambda>c. c \<noteq> sep) (a @ sep # s) = a"
  by (induction a) auto

lemma dropWhile_no_sep:
  "sep \<notin> set t \<Longrightarrow> dropWhile (\<lambda>c. c \<noteq> sep) t = []"
  by (induction t) auto

lemma SplitN2_colon:
  "sep \<notin> set a \<Longrightarrow> SplitN2 (a @ sep # s) sep = [a, s]"
  by (simp add: SplitN2_def dropWhile_upto_sep takeWhile_upto_sep)

lemma SplitN2_no_sep:
  "sep \<notin> set t \<Longrightarrow> SplitN2 t sep = [t]"
  by (simp add: SplitN2_def dropWhile_no_sep)

text \<open>
  C10. When \<^verbatim>\<open>MP_TOKEN\<close> is present (not empty) and malformed, that is, it has no colon,
  or the part before its first colon or the part after it is empty, \<open>newClient\<close> returns
  the token-format error whatever the configured \<^verbatim>\<open>service_account\<close> and
  \<^verbatim>\<open>service_secret\<close> are: there is no fallback to them.
\<close>

theorem newClient_malformed_token:
  assumes "env_MP_TOKEN cfg \<noteq> []"
    and "CHR '':'' \<notin> set (env_MP_TOKEN cfg) \<or>
         (env_MP_TOKEN cfg = a @ CHR '':'' # s \<and> CHR '':'' \<notin> set a \<and> (a = [] \<or> s = []))"
  shows "newClient b64 cfg = Inl BadToken"
proof -
  from assms(2) consider
      (none) "CHR '':'' \<notin> set (env_MP_TOKEN cfg)"
    | (split) "env_MP_TOKEN cfg = a @ CHR '':'' # s" "CHR '':'' \<notin> set a" "a = [] \<or> s = []"
    by blast
  then show ?thesis
  proof cases
    case none
    then have "SplitN2 (env_MP_TOKEN cfg) CHR '':'' = [env_MP_TOKEN cfg]"
      by (rule SplitN2_no_sep)
    with assms(1) show ?thesis by (simp add: newClient_def)
  next
    case split
    then have "SplitN2 (env_MP_TOKEN cfg) CHR '':'' = [a, s]"
      by (simp add: SplitN2_colon)
    with assms(1) split(3) show ?thesis by (auto simp: newClient_def Let_def)
  qed
qed

theorem newClient_malformed_token_witness:
  "newClient id \<lparr>v_service_account = ''acct'', v_service_secret = ''s3cret'', v_region = ''eu'',
      v_project_id = ''42'', env_MP_TOKEN = ''alice'', env_MP_DEBUG = []\<rparr> = Inl BadToken
   \<and> newClient id \<lparr>v_service_account = ''acct'', v_service_secret = ''s3cret'', v_region = ''eu'',
      v_project_id = ''42'', env_MP_TOKEN = '':pw'', env_MP_DEBUG = []\<rparr> = Inl BadToken
   \<and> newClient id \<lparr>v_service_account = ''acct'', v_service_secret = ''s3cret'', v_region = ''eu'',
      v_project_id = ''42'', env_MP_TOKEN = ''alice:'', env_MP_DEBUG = []\<rparr> = Inl BadToken
   \<and> (\<exists>c. newClient id \<lparr>v_service_account = ''acct'', v_service_secret = ''s3cret'', v_region = ''eu'',
      v_project_id = ''42'', env_MP_TOKEN = [], env_MP_DEBUG = []\<rparr> = Inr c)"
proof -
  let ?cfg = "\<lambda>t. \<lparr>v_service_account = ''acct'', v_service_secret = ''s3cret'', v_region = ''eu'',
      v_project_id = ''42'', env_MP_TOKEN = t, env_MP_DEBUG = []\<rparr>"
  have 1: "newClient id (?cfg ''alice'') = Inl BadToken"
    by (rule newClient_malformed_token) simp_all
  have 2: "newClient id (?cfg '':pw'') = Inl BadToken"
    by (rule newClient_malformed_token [where a = "[]" and s = "''pw''"]) simp_all
  have 3: "newClient id (?cfg ''alice:'') = Inl BadToken"
    by (rule newClient_malformed_token [where a = "''alice''" and s = "[]"]) simp_all
  have 4: "\<exists>c. newClient id (?cfg []) = Inr c"
    by (simp add: newClient_def Let_def New_def ValidRegion_def RegionUS_def RegionEU_def RegionIN_def)
  from 1 2 3 4 show ?thesis by blast
qed

subsection \<open>The default region\<close>

lemma newClient_empty_region_is_us:
  "v_region cfg = [] \<Longrightarrow> newClient b64 cfg = newClient b64 (cfg\<lparr>v_region := RegionUS\<rparr>)"
  by (simp add: newClient_def Let_def isDebug_def RegionUS_def)

lemma New_us_not_InvalidRegion:
  "New b64 sa ss RegionUS pid dbg \<noteq> Inl (InvalidRegion r)"
  by (simp add: New_def ValidRegion_def)

text \<open>
  C9. When no region is configured (\<^verbatim>\<open>viper.GetString("region")\<close> is the empty string),
  \<open>newClient\<close> behaves as with the region \<^verbatim>\<open>us\<close>: it never returns the invalid-region
  error, and with credentials available (a configured account and secret and no
  \<^verbatim>\<open>MP_TOKEN\<close>, or an \<^verbatim>\<open>MP_TOKEN\<close> of the form \<^verbatim>\<open>user:secret\<close>) it returns a client
  whose region is \<^verbatim>\<open>us\<close> and for which each of the four families resolves to its US
  base URL.
\<close>

theorem newClient_defaults_region_to_us:
  assumes "v_region cfg = []"
  shows "newClient b64 cfg = newClient b64 (cfg\<lparr>v_region := RegionUS\<rparr>)
     \<and> (\<forall>r. newClient b64 cfg \<noteq> Inl (InvalidRegion r))
     \<and> (env_MP_TOKEN cfg = [] \<and> v_service_account cfg \<noteq> [] \<and> v_service_secret cfg \<noteq> []
          \<or> env_MP_TOKEN cfg = a @ CHR '':'' # s \<and> CHR '':'' \<notin> set a \<and> a \<noteq> [] \<and> s \<noteq> []
        \<longrightarrow>
          (\<exists>c. newClient b64 cfg = Inr c \<and> region c = ''us''
             \<and> ResolveURL APIFamilyQuery (region c) = Inr ''https://mixpanel.com/api/query''
             \<and> ResolveURL APIFamilyExport (region c) = Inr ''https://data.mixpanel.com/api/2.0''
             \<and> ResolveURL APIFamilyApp (region c) = Inr ''https://mixpanel.com/api/app''
             \<and> ResolveURL APIFamilyIngestion (region c) = Inr ''https://api.mixpanel.com''))"
proof (intro conjI allI impI)
  show "newClient b64 cfg = newClient b64 (cfg\<lparr>v_region := RegionUS\<rparr>)"
    using assms by (rule newClient_empty_region_is_us)
next
  fix r
  show "newClient b64 cfg \<noteq> Inl (InvalidRegion r)"
    using assms
    by (auto simp: newClient_def Let_def New_us_not_InvalidRegion split: sum.splits)
next
  assume c: "env_MP_TOKEN cfg = [] \<and> v_service_account cfg \<noteq> [] \<and> v_service_secret cfg \<noteq> []
          \<or> env_MP_TOKEN cfg = a @ CHR '':'' # s \<and> CHR '':'' \<notin> set a \<and> a \<noteq> [] \<and> s \<noteq> []"
  have "\<exists>sa ss. sa \<noteq> [] \<and> ss \<noteq> [] \<and>
          newClient b64 cfg = New b64 sa ss RegionUS (v_project_id cfg) (isDebug cfg)"
  proof -
    from c consider
        (config) "env_MP_TOKEN cfg = []" "v_service_account cfg \<noteq> []" "v_service_secret cfg \<noteq> []"
      | (token) "env_MP_TOKEN cfg = a @ CHR '':'' # s" "CHR '':'' \<notin> set a" "a \<noteq> []" "s \<noteq> []"
      by blast
    then show ?thesis
    proof cases
      case config
      with assms show ?thesis by (auto simp: newClient_def Let_def)
    next
      case token
      then have "SplitN2 (env_MP_TOKEN cfg) CHR '':'' = [a, s]"
        by (simp add: SplitN2_colon)
      with assms token show ?thesis by (auto simp: newClient_def Let_def)
    qed
  qed
  then obtain sa ss where n: "sa \<noteq> []" "ss \<noteq> []"
      "newClient b64 cfg = New b64 sa ss RegionUS (v_project_id cfg) (isDebug cfg)"
    by blast
  let ?c = "\<lparr>timeout = 120 * Second, auth = b64 (sa @ '':'' @ ss),
             region = ''us'', projectID = v_project_id cfg, debug = isDebug cfg\<rparr>"
  have "newClient b64 cfg = Inr ?c"
    using n by (simp add: New_def ValidRegion_def RegionUS_def)
  moreover have "ResolveURL APIFamilyQuery ''us'' = Inr ''https://mixpanel.com/api/query''"
    by (simp add: ResolveURL_def baseURLs_def APIFamilyQuery_def RegionUS_def)
  moreover have "ResolveURL APIFamilyExport ''us'' = Inr ''https://data.mixpanel.com/api/2.0''"
    by (simp add: ResolveURL_def baseURLs_def APIFamilyQuery_def APIFamilyExport_def RegionUS_def)
  moreover have "ResolveURL APIFamilyApp ''us'' = Inr ''https://mixpanel.com/api/app''"
    by (simp add: ResolveURL_def baseURLs_def APIFamilyQuery_def APIFamilyExport_def
        APIFamilyApp_def RegionUS_def)
  moreover have "ResolveURL APIFamilyIngestion ''us'' = Inr ''https://api.mixpanel.com''"
    by (simp add: ResolveURL_def baseURLs_def APIFamilyQuery_def APIFamilyExport_def
        APIFamilyApp_def APIFamilyIngestion_def RegionUS_def)
  ultimately show "\<exists>c. newClient b64 cfg = Inr c \<and> region c = ''us''
             \<and> ResolveURL APIFamilyQuery (region c) = Inr ''https://mixpanel.com/api/query''
             \<and> ResolveURL APIFamilyExport (region c) = Inr ''https://data.mixpanel.com/api/2.0''
             \<and> ResolveURL APIFamilyApp (region c) = Inr ''https://mixpanel.com/api/app''
             \<and> ResolveURL APIFamilyIngestion (region c) = Inr ''https://api.mixpanel.com''"
    by simp
qed

theorem newClient_defaults_region_to_us_witness:
  "(\<exists>c. newClient id \<lparr>v_service_account = ''acct'', v_service_secret = ''s3cret'', v_region = [],
            v_project_id = ''42'', env_MP_TOKEN = [], env_MP_DEBUG = []\<rparr> = Inr c
       \<and> region c = ''us''
       \<and> ResolveURL APIFamilyQuery (region c) = Inr ''https://mixpanel.com/api/query''
       \<and> ResolveURL APIFamilyExport (region c) = Inr ''https://data.mixpanel.com/api/2.0''
       \<and> ResolveURL APIFamilyApp (region c) = Inr ''https://mixpanel.com/api/app''
       \<and> ResolveURL APIFamilyIngestion (region c) = Inr ''https://api.mixpanel.com'')"
  using newClient_defaults_region_to_us [of "\<lparr>v_service_account = ''acct'',
            v_service_secret = ''s3cret'', v_region = [],
            v_project_id = ''42'', env_MP_TOKEN = [], env_MP_DEBUG = []\<rparr>" id "[]" "[]",
            THEN conjunct2, THEN conjunct2]
  by simp

subsection \<open>Letter case of the region\<close>

lemma ToLower_ASCII: "isASCII s \<Longrightarrow> ToLower ul s = map toLower_byte s"
  by (simp add: ToLower_def)

lemma ToLower_not_ASCII: "\<not> isASCII s \<Longrightarrow> ToLower ul s = ul s"
  by (simp add: ToLower_def)

lemma ToLower_dotted_I:
  "ToLower ul [CHR 0xC4, CHR 0xB0, CHR ''N''] = ul [CHR 0xC4, CHR 0xB0, CHR ''N'']"
  by (simp add: ToLower_def isASCII_def)

lemma PersistentPreRunE_accepts:
  "PersistentPreRunE ul cfg = None \<longleftrightarrow>
     v_region cfg = [] \<or> ToLower ul (v_region cfg) \<in> {''us'', ''eu'', ''in''}"
  by (auto simp: PersistentPreRunE_def Let_def)

lemma PersistentPreRunE_rejects:
  "v_region cfg \<noteq> [] \<Longrightarrow> ToLower ul (v_region cfg) \<notin> {''us'', ''eu'', ''in''} \<Longrightarrow>
     PersistentPreRunE ul cfg = Some (InvalidRegion (ToLower ul (v_region cfg)))"
  by (auto simp: PersistentPreRunE_def Let_def)

lemma New_accepts_only_lowercase:
  "(\<exists>c. New b64 sa ss rgn pid dbg = Inr c) \<longleftrightarrow> rgn \<in> {''us'', ''eu'', ''in''} \<and> sa \<noteq> [] \<and> ss \<noteq> []"
  by (auto simp: New_def ValidRegion_def RegionUS_def RegionEU_def RegionIN_def)

lemma config_Set_region_lower_cases:
  "\<exists>store'. config_Set ul store ''region'' ''US'' = Inr store' \<and> store' ''region'' = Some ''us''"
  by (simp add: config_Set_def KnownKeyNames_def ToLower_def isASCII_def toLower_byte_def
      upper_letters_def lower_letters_def)

text \<open>
  C6. The region \<^verbatim>\<open>US\<close> (from the flag \<^verbatim>\<open>--region\<close> or from \<^verbatim>\<open>MP_REGION\<close>), with
  credentials configured: \<open>PersistentPreRunE\<close> lower-cases a local copy and accepts it,
  but \<open>newClient\<close> reads the value again as it was given and \<open>New\<close> refuses it, so
  the command fails; \<open>ResolveURL\<close> does not know \<^verbatim>\<open>US\<close> either. The same
  configuration with \<^verbatim>\<open>us\<close> gives a client.
\<close>

theorem uppercase_region_validated_then_refused:
  "PersistentPreRunE ul \<lparr>v_service_account = ''acct'', v_service_secret = ''s3cret'', v_region = ''US'',
       v_project_id = ''42'', env_MP_TOKEN = [], env_MP_DEBUG = []\<rparr> = None
   \<and> newClient b64 \<lparr>v_service_account = ''acct'', v_service_secret = ''s3cret'', v_region = ''US'',
       v_project_id = ''42'', env_MP_TOKEN = [], env_MP_DEBUG = []\<rparr> = Inl (InvalidRegion ''US'')
   \<and> command_client ul b64 \<lparr>v_service_account = ''acct'', v_service_secret = ''s3cret'', v_region = ''US'',
       v_project_id = ''42'', env_MP_TOKEN = [], env_MP_DEBUG = []\<rparr> = Inl (InvalidRegion ''US'')
   \<and> ResolveURL APIFamilyQuery ''US'' = Inl (UnknownRegion ''US'')
   \<and> (\<exists>c. command_client ul b64 \<lparr>v_service_account = ''acct'', v_service_secret = ''s3cret'', v_region = ''us'',
       v_project_id = ''42'', env_MP_TOKEN = [], env_MP_DEBUG = []\<rparr> = Inr c)"
  by (simp add: Let_def command_client_def PersistentPreRunE_def ToLower_def isASCII_def toLower_byte_def
      upper_letters_def lower_letters_def newClient_def New_def ValidRegion_def
      RegionUS_def RegionEU_def RegionIN_def ResolveURL_def baseURLs_def APIFamilyQuery_def)

subsection \<open>Backoff\<close>

lemma wrap64_id: "- (2 ^ 63) \<le> x \<Longrightarrow> x < 2 ^ 63 \<Longrightarrow> wrap64 x = x"
  by (simp add: wrap64_def)

lemma Atoi_Some_nonempty: "Atoi ra = Some n \<Longrightarrow> ra \<noteq> []"
  by (auto simp: Atoi_def)

lemma backoff_retry_after:
  assumes "Header_Get (Header resp) ''Retry-After'' = ra" "Atoi ra = Some n" "0 < n" "n \<le> 9223372036"
  shows "backoff conv attempt resp = n * Second"
proof -
  have "ra \<noteq> []" using assms(2) by (rule Atoi_Some_nonempty)
  moreover have "wrap64 (n * Second) = n * Second"
    using assms(3,4) by (intro wrap64_id) (simp_all add: Second_def)
  ultimately show ?thesis using assms by (simp add: backoff_def)
qed

lemma backoff_exponential:
  assumes "Header_Get (Header resp) ''Retry-After'' = ra"
    and "ra = [] \<or> Atoi ra = None \<or> (\<exists>m. Atoi ra = Some m \<and> m \<le> 0)"
    and "0 \<le> attempt" "attempt \<le> 33"
  shows "backoff conv attempt resp = 2 ^ nat attempt * Second"
proof -
  define p :: int where "p = 2 ^ nat attempt"
  have "p \<le> 2 ^ 33"
    unfolding p_def using assms(3,4) by (intro power_increasing) auto
  moreover have "0 < p" by (simp add: p_def)
  ultimately have "wrap64 (p * Second) = p * Second"
    by (intro wrap64_id) (simp_all add: Second_def)
  then have w: "wrap64 (2 ^ nat attempt * Second) = 2 ^ nat attempt * Second"
    by (simp add: p_def)
  have p: "pow2_duration conv attempt = 2 ^ nat attempt"
    using assms(3,4) by (simp add: pow2_duration_def baseBackoffSec_def)
  have "backoff conv attempt resp = wrap64 (pow2_duration conv attempt * Second)"
  proof (cases "if ra \<noteq> [] then Atoi ra else None")
    case None
    then show ?thesis by (simp add: backoff_def assms(1))
  next
    case (Some m)
    with assms(2) have "m \<le> 0" by (auto split: if_splits)
    with Some show ?thesis by (simp add: backoff_def assms(1))
  qed
  with w p show ?thesis by simp
qed

text \<open>
  C1 (as amended). For a 429 response whose \<^verbatim>\<open>Retry-After\<close> value parses with
  \<^verbatim>\<open>strconv.Atoi\<close> as a positive integer \<open>n\<close> of at most 9223372036 (the largest
  number of whole seconds a \<^verbatim>\<open>time.Duration\<close> holds), the wait is exactly \<open>n\<close>
  seconds. When the header is absent or empty, does not parse, or is not positive, the
  wait for attempt \<open>k\<close>, from 0 to 33, is exactly \<open>2 ^ k\<close> seconds: one second at
  attempt 0, two at attempt 1.
\<close>

theorem backoff_wait:
  "(Header_Get (Header resp) ''Retry-After'' = ra \<and> Atoi ra = Some n \<and> 0 < n \<and> n \<le> 9223372036
      \<longrightarrow> backoff conv k resp = n * Second)
   \<and> (Header_Get (Header resp) ''Retry-After'' = ra
        \<and> (ra = [] \<or> Atoi ra = None \<or> (\<exists>m. Atoi ra = Some m \<and> m \<le> 0))
        \<and> 0 \<le> k \<and> k \<le> 33
      \<longrightarrow> backoff conv k resp = 2 ^ nat k * Second)"
  using backoff_retry_after [of resp ra n conv k] backoff_exponential [of resp ra k conv]
  by blast

theorem backoff_wait_witness:
  "backoff (\<lambda>_. 0) 0 \<lparr>StatusCode = 429, Header = [(''Retry-After'', [''5''])], Body = Some []\<rparr> = 5 * Second
   \<and> backoff (\<lambda>_. 0) 0 \<lparr>StatusCode = 429, Header = [], Body = Some []\<rparr> = 1 * Second
   \<and> backoff (\<lambda>_. 0) 1 \<lparr>StatusCode = 429, Header = [], Body = Some []\<rparr> = 2 * Second"
proof -
  let ?r5 = "\<lparr>StatusCode = 429, Header = [(''Retry-After'', [''5''])], Body = Some []\<rparr>"
  let ?r0 = "\<lparr>StatusCode = 429, Header = [], Body = Some []\<rparr>"
  have a: "Header_Get (Header ?r5) ''Retry-After'' = ''5''" by (simp add: Header_Get_def)
  have b: "Atoi ''5'' = Some 5" by (simp add: Atoi_def digit_def)
  have c: "Header_Get (Header ?r0) ''Retry-After'' = []" by (simp add: Header_Get_def)
  have "backoff (\<lambda>_. 0) 0 ?r5 = 5 * Second"
    using backoff_wait [of ?r5 "''5''" 5 "\<lambda>_. 0" 0] a b by simp
  moreover have "backoff (\<lambda>_. 0) 0 ?r0 = 1 * Second"
    using backoff_wait [of ?r0 "[]" 0 "\<lambda>_. 0" 0] c by simp
  moreover have "backoff (\<lambda>_. 0) 1 ?r0 = 2 * Second"
    using backoff_wait [of ?r0 "[]" 0 "\<lambda>_. 0" 1] c by simp
  ultimately show ?thesis by simp
qed

text \<open>
  The claim as it was stated, for every positive integer: \<^verbatim>\<open>Retry-After: 9223372037\<close>
  parses as a positive integer, and the product with \<^verbatim>\<open>time.Second\<close> leaves the range
  of 64 bits, so the wait is a negative duration and not 9223372037 seconds.
\<close>

theorem backoff_huge_retry_after_counterexample:
  "Header_Get (Header \<lparr>StatusCode = 429, Header = [(''Retry-After'', [''9223372037''])], Body = Some []\<rparr>)
       ''Retry-After'' = ''9223372037''
   \<and> Atoi ''9223372037'' = Some 9223372037
   \<and> backoff (\<lambda>_. 0) 0 \<lparr>StatusCode = 429, Header = [(''Retry-After'', [''9223372037''])], Body = Some []\<rparr>
       = - 9223372036709551616
   \<and> backoff (\<lambda>_. 0) 0 \<lparr>StatusCode = 429, Header = [(''Retry-After'', [''9223372037''])], Body = Some []\<rparr>
       \<noteq> 9223372037 * Second"
  by (simp add: backoff_def Header_Get_def Atoi_def digit_def wrap64_def Second_def)

subsection \<open>Retry on 429\<close>

text \<open>
  C2. With the retry budget \<open>maxRetries = 1\<close>: when the family and the client's region
  resolve, the request can be built, and the server answers the first request of a send
  and its retry with status 429, the send hands exactly two requests to the transport
  (the request and one identical retry, with one sleep of the backoff of attempt 0 between
  them) and returns the second response, still 429, to the caller; there is no third
  request.
\<close>

theorem do_two_429:
  assumes url: "ResolveURL apiFamily (region c) = Inr base"
    and req: "req = build_request c method
                (base @ path @ (if query \<noteq> [] then ''?'' @ Encode E query else []))
                (if form \<noteq> [] then ''application/x-www-form-urlencoded'' else [])
                (if form \<noteq> [] then Some (Encode E form) else None)"
    and ok: "NewRequest_ok E method (URL req)"
    and first: "RoundTrip E (sent w) req = Inr r0" "StatusCode r0 = 429"
    and second: "RoundTrip E (sent w @ [req]) req = Inr r1" "StatusCode r1 = 429"
  shows "client_do E c method apiFamily path query form w =
           (Inr (Some r1),
            w\<lparr>sent := sent w @ [req, req], slept := slept w @ [backoff (float_conv E) 0 r0]\<rparr>)"
proof -
  let ?url = "base @ path @ (if query \<noteq> [] then ''?'' @ Encode E query else [])"
  let ?ct = "if form \<noteq> [] then ''application/x-www-form-urlencoded'' else []"
  let ?body = "if form \<noteq> [] then Some (Encode E form) else None"
  have u: "URL req = ?url" by (simp add: req build_request_def)
  have b: "(if form \<noteq> [] then Some (Encode E form) else ?body) = ?body" by simp
  have 3: "do_loop E c method ?url ?ct form ?body 2 (Some r1) w' = (Inr (Some r1), w')" for w'
    by (subst do_loop.simps) (simp add: maxRetries_def)
  have 2: "do_loop E c method ?url ?ct form ?body 1 (Some r0) w' = (Inr (Some r1), w'\<lparr>sent := sent w' @ [req]\<rparr>)"
    if "sent w' = sent w @ [req]" for w'
    apply (subst do_loop.simps)
    using ok second that 3 by (simp add: maxRetries_def u req [symmetric] Let_def)
  have 1: "do_loop E c method ?url ?ct form ?body 0 None w =
      (Inr (Some r1), w\<lparr>sent := sent w @ [req, req], slept := slept w @ [backoff (float_conv E) 0 r0]\<rparr>)"
    apply (subst do_loop.simps)
    using ok first 2 [of "w\<lparr>sent := sent w @ [req], slept := slept w @ [backoff (float_conv E) 0 r0]\<rparr>"]
    by (simp add: maxRetries_def u req [symmetric] Let_def b)
  show ?thesis
    using url 1 by (simp add: client_do_def Let_def)
qed


theorem do_two_429_witness:
  "Post throttling_env example_client ''query'' ''/engage'' [(''page'', [''0''])]
       \<lparr>sent = [], slept = []\<rparr> =
     (Inr (Some too_many), \<lparr>sent = [example_post, example_post], slept = [5 * Second]\<rparr>)"
proof -
  have r: "ResolveURL ''query'' (region example_client) = Inr ''https://mixpanel.com/api/query''"
    by (simp add: example_client_def ResolveURL_def baseURLs_def APIFamilyQuery_def RegionUS_def)
  have b: "backoff (float_conv throttling_env) 0 too_many = 5 * Second"
    by (simp add: backoff_def too_many_def Header_Get_def Atoi_def digit_def wrap64_def Second_def)
  show ?thesis
    unfolding Post_def
    using do_two_429 [of "''query''" example_client "''https://mixpanel.com/api/query''"
        example_post "''POST''" "''/engage''" "[]" throttling_env "[(''page'', [''0''])]"
        "\<lparr>sent = [], slept = []\<rparr>" too_many too_many] r b
    by (simp add: build_request_def example_post_def example_client_def throttling_env_def
        too_many_def)
qed

subsection \<open>Auto-pagination\<close>

lemma paginate_after_pages:
  "after_pages n post um label bp limit pageSize sw = Some sw' \<Longrightarrow>
     paginate post um label bp limit pageSize sw = paginate post um label bp limit pageSize sw'"
proof (induction n arbitrary: sw)
  case 0
  then show ?case by simp
next
  case (Suc n)
  then obtain sw1 where it: "iteration post um label bp limit pageSize sw = Inr sw1"
    and rest: "after_pages n post um label bp limit pageSize sw1 = Some sw'"
    by (auto split: sum.splits)
  have "paginate post um label bp limit pageSize sw = paginate post um label bp limit pageSize sw1"
    by (subst paginate.simps) (simp add: it)
  with Suc.IH [OF rest] show ?case by simp
qed

lemma paginate_finished:
  "iteration post um label bp limit pageSize sw = Inl res \<Longrightarrow>
     paginate post um label bp limit pageSize sw = Some res"
  by (subst paginate.simps) simp

lemma iteration_ok_page:
  assumes "post (page_params bp st) w' = (Inr (Some resp), wa)"
    and "readResponseBody resp = Inr body"
    and "um body = Some pr"
    and "Status pr = ''ok'' \<or> Status pr = []"
  shows "iteration post um label bp limit pageSize (st, w') =
     (let all = allResults st @ Results pr;
          total = (if totalFromAPI st < 0 then Total pr else totalFromAPI st)
      in if 0 < limit \<and> limit \<le> int (length all) then Inl (Inr (take (nat limit) all, total), wa)
         else if total \<le> int (length all) then Inl (Inr (all, total), wa)
         else if int (length (Results pr)) < pageSize then Inl (Inr (all, total), wa)
         else Inr (\<lparr>allResults = all, sessionID = SessionID pr,
                   page = wrap64 (page st + 1), totalFromAPI = total\<rparr>, wa))"
  using assms by (auto simp: iteration_def Let_def)

lemma iteration_bad_status:
  assumes "post (page_params bp st) w' = (Inr (Some resp), wa)"
    and "readResponseBody resp = Inr body"
    and "um body = Some pr"
    and "Status pr \<noteq> ''ok''" "Status pr \<noteq> []"
  shows "iteration post um label bp limit pageSize (st, w') = Inl (Inl (EngageStatus (Status pr)), wa)"
  using assms by (simp add: iteration_def Let_def)

text \<open>
  C3. With a positive result cap \<open>limit\<close>: when the loop has made \<open>n\<close> passes without
  stopping and the next page (fetched, read and parsed, with status \<^verbatim>\<open>ok\<close> or empty)
  brings the accumulated records to the cap or beyond, the operation returns the first
  \<open>limit\<close> accumulated records, exactly \<open>limit\<close> of them, and its surroundings are
  those right after this page's \<^verbatim>\<open>Post\<close>: no further request is made. The instance
  proved after it is the scenario of pages of 100 with total 250 and the cap 120: 120 records after the
  second of two requests.
\<close>

theorem cap_reached_stops:
  assumes "after_pages n post um label bp limit pageSize (loop_start, w) = Some (st, w')"
    and "post (page_params bp st) w' = (Inr (Some resp), wa)"
    and "readResponseBody resp = Inr body"
    and "um body = Some pr"
    and "Status pr = ''ok'' \<or> Status pr = []"
    and "0 < limit"
    and "limit \<le> int (length (allResults st @ Results pr))"
  shows "autoPaginate post um label bp limit pageSize w =
           Some (Inr (take (nat limit) (allResults st @ Results pr),
                      if totalFromAPI st < 0 then Total pr else totalFromAPI st), wa)
         \<and> int (length (take (nat limit) (allResults st @ Results pr))) = limit"
proof -
  have "iteration post um label bp limit pageSize (st, w') =
      Inl (Inr (take (nat limit) (allResults st @ Results pr),
                if totalFromAPI st < 0 then Total pr else totalFromAPI st), wa)"
    using iteration_ok_page [where post = post and um = um and bp = bp and st = st and label = label
        and limit = limit and pageSize = pageSize, OF assms(2-5)] assms(6,7)
    by (simp add: Let_def)
  then have "paginate post um label bp limit pageSize (st, w') =
      Some (Inr (take (nat limit) (allResults st @ Results pr),
                if totalFromAPI st < 0 then Total pr else totalFromAPI st), wa)"
    by (rule paginate_finished)
  moreover have "int (length (take (nat limit) (allResults st @ Results pr))) = limit"
    using assms(6,7) by simp
  ultimately show ?thesis
    using paginate_after_pages [OF assms(1)] by (simp add: autoPaginate_def)
qed

text \<open>
  C4. When the loop has made \<open>n\<close> passes without stopping (so that records of earlier
  pages may be accumulated) and the next page envelope carries a status other than
  \<^verbatim>\<open>ok\<close> and the empty string, the whole operation returns the error naming that
  status: an error carries no records, and nothing accumulated is returned.
\<close>

theorem bad_status_fails:
  assumes "after_pages n post um label bp limit pageSize (loop_start, w) = Some (st, w')"
    and "post (page_params bp st) w' = (Inr (Some resp), wa)"
    and "readResponseBody resp = Inr body"
    and "um body = Some pr"
    and "Status pr \<noteq> ''ok''" "Status pr \<noteq> []"
  shows "autoPaginate post um label bp limit pageSize w = Some (Inl (EngageStatus (Status pr)), wa)"
proof -
  have "paginate post um label bp limit pageSize (st, w') = Some (Inl (EngageStatus (Status pr)), wa)"
    using iteration_bad_status [where post = post and um = um and bp = bp and st = st, OF assms(2-6)] by (rule paginate_finished)
  then show ?thesis
    using paginate_after_pages [OF assms(1)] by (simp add: autoPaginate_def)
qed

lemma short_page_stops:
  assumes "after_pages n post um label bp limit pageSize (loop_start, w) = Some (st, w')"
    and "post (page_params bp st) w' = (Inr (Some resp), wa)"
    and "readResponseBody resp = Inr body"
    and "um body = Some pr"
    and "Status pr = ''ok'' \<or> Status pr = []"
    and "int (length (Results pr)) < pageSize"
  shows "autoPaginate post um label bp limit pageSize w =
           Some (Inr (if 0 < limit \<and> limit \<le> int (length (allResults st @ Results pr))
                      then take (nat limit) (allResults st @ Results pr)
                      else allResults st @ Results pr,
                      if totalFromAPI st < 0 then Total pr else totalFromAPI st), wa)"
proof -
  have "iteration post um label bp limit pageSize (st, w') =
      Inl (Inr (if 0 < limit \<and> limit \<le> int (length (allResults st @ Results pr))
                      then take (nat limit) (allResults st @ Results pr)
                      else allResults st @ Results pr,
                if totalFromAPI st < 0 then Total pr else totalFromAPI st), wa)"
    using iteration_ok_page [where post = post and um = um and bp = bp and st = st and label = label
        and limit = limit and pageSize = pageSize, OF assms(2-5)] assms(6)
    by (simp add: Let_def)
  then have "paginate post um label bp limit pageSize (st, w') =
      Some (Inr (if 0 < limit \<and> limit \<le> int (length (allResults st @ Results pr))
                      then take (nat limit) (allResults st @ Results pr)
                      else allResults st @ Results pr,
                if totalFromAPI st < 0 then Total pr else totalFromAPI st), wa)"
    by (rule paginate_finished)
  then show ?thesis
    using paginate_after_pages [OF assms(1)] by (simp add: autoPaginate_def)
qed



lemma first_page_of_three:
  "after_pages (Suc 0) counting_post three_pages ''profiles'' [] 120 100 (loop_start, 0) =
     Some (\<lparr>allResults = map (Pair 0) [0..<100], sessionID = ''s1'', page = 1, totalFromAPI = 250\<rparr>, Suc 0)"
  by (simp add: iteration_def counting_post_def readResponseBody_def three_pages_def
      engage_page_def wrap64_def Let_def)

theorem cap_reached_stops_witness:
  "autoPaginate counting_post three_pages ''profiles'' [] 120 100 0 =
     Some (Inr (map (Pair 0) [0..<100] @ map (Pair 1) [0..<20], 250), 2)
   \<and> length (map (Pair (0::nat)) [0..<100] @ map (Pair (1::nat)) [0..<20::nat]) = 120"
  using cap_reached_stops [where post = counting_post and um = three_pages and label = "''profiles''"
      and bp = "[]" and limit = 120 and pageSize = 100 and w = 0 and n = "Suc 0"
      and st = "\<lparr>allResults = map (Pair 0) [0..<100], sessionID = ''s1'', page = 1, totalFromAPI = 250\<rparr>"
      and w' = "Suc 0" and wa = 2 and body = "''second''" and pr = "engage_page 1 ''ok'' 250 100"
      and resp = "\<lparr>StatusCode = 200, Header = [], Body = Some ''second''\<rparr>",
      OF first_page_of_three]
  by (simp add: counting_post_def readResponseBody_def three_pages_def engage_page_def take_map)


lemma first_page_before_error:
  "after_pages (Suc 0) counting_post second_page_error ''profiles'' [] 0 100 (loop_start, 0) =
     Some (\<lparr>allResults = map (Pair 0) [0..<100], sessionID = ''s1'', page = 1, totalFromAPI = 250\<rparr>, Suc 0)"
  by (simp add: iteration_def counting_post_def readResponseBody_def second_page_error_def
      engage_page_def wrap64_def Let_def)

theorem bad_status_fails_witness:
  "autoPaginate counting_post second_page_error ''profiles'' [] 0 100 0 =
     Some (Inl (EngageStatus ''error''), 2)"
  using bad_status_fails [where post = counting_post and um = second_page_error
      and label = "''profiles''" and bp = "[]" and limit = 0 and pageSize = 100 and w = 0
      and n = "Suc 0"
      and st = "\<lparr>allResults = map (Pair 0) [0..<100], sessionID = ''s1'', page = 1, totalFromAPI = 250\<rparr>"
      and w' = "Suc 0" and wa = 2 and body = "''second''" and pr = "engage_page 1 ''error'' 0 0"
      and resp = "\<lparr>StatusCode = 200, Header = [], Body = Some ''second''\<rparr>",
      OF first_page_before_error]
  by (simp add: counting_post_def readResponseBody_def second_page_error_def engage_page_def)

subsection \<open>The loop always ends\<close>

lemma iteration_continues:
  assumes "iteration post um label bp limit pageSize (st, w) = Inr (st', w')"
  shows "int (length (allResults st)) + pageSize \<le> int (length (allResults st'))"
    and "int (length (allResults st')) < totalFromAPI st'"
    and "0 \<le> totalFromAPI st \<Longrightarrow> totalFromAPI st' = totalFromAPI st"
  using assms
  by (auto simp: iteration_def Let_def split: prod.splits sum.splits option.splits if_splits)

lemma paginate_returns_from:
  assumes "1 \<le> pageSize" "0 \<le> totalFromAPI st"
  shows "\<exists>res. paginate post um label bp limit pageSize (st, w) = Some res"
  using assms(2)
proof (induction "nat (totalFromAPI st - int (length (allResults st)))" arbitrary: st w
    rule: less_induct)
  case less
  show ?case
  proof (cases "iteration post um label bp limit pageSize (st, w)")
    case (Inl res)
    then have "paginate post um label bp limit pageSize (st, w) = Some res"
      by (subst paginate.simps) simp
    then show ?thesis by blast
  next
    case (Inr sw')
    obtain st' w' where sw': "sw' = (st', w')" by (cases sw')
    note c = iteration_continues [OF Inr [unfolded sw']]
    have t: "totalFromAPI st' = totalFromAPI st" using c(3) less.prems by simp
    have "nat (totalFromAPI st' - int (length (allResults st')))
        < nat (totalFromAPI st - int (length (allResults st)))"
      using c(1,2) t assms(1) by linarith
    moreover have "0 \<le> totalFromAPI st'" using t less.prems by simp
    ultimately obtain res where "paginate post um label bp limit pageSize (st', w') = Some res"
      using less.hyps by blast
    moreover have "paginate post um label bp limit pageSize (st, w) =
        paginate post um label bp limit pageSize (st', w')"
      by (subst paginate.simps) (simp add: Inr sw')
    ultimately show ?thesis by simp
  qed
qed

lemma paginate_returns:
  assumes "1 \<le> pageSize"
  shows "\<exists>res. paginate post um label bp limit pageSize (st, w) = Some res"
proof (cases "iteration post um label bp limit pageSize (st, w)")
  case (Inl res)
  then have "paginate post um label bp limit pageSize (st, w) = Some res"
    by (subst paginate.simps) simp
  then show ?thesis by blast
next
  case (Inr sw')
  obtain st' w' where sw': "sw' = (st', w')" by (cases sw')
  note c = iteration_continues [OF Inr [unfolded sw']]
  have "0 \<le> totalFromAPI st'" using c(2) by linarith
  from paginate_returns_from [OF assms this, where post = post and um = um and label = label
      and bp = bp and limit = limit and w = w']
  obtain res where "paginate post um label bp limit pageSize (st', w') = Some res" ..
  moreover have "paginate post um label bp limit pageSize (st, w) =
      paginate post um label bp limit pageSize (st', w')"
    by (subst paginate.simps) (simp add: Inr sw')
  ultimately show ?thesis by simp
qed

lemma engage_command_returns:
  "\<exists>res. engage_command E um b64 cfg label flagParams limit pageSize w = Some res"
proof (cases "pageSize < 1 \<or> 1000 < pageSize")
  case True
  then show ?thesis by (simp add: engage_command_def)
next
  case False
  then have "1 \<le> pageSize" by simp
  from paginate_returns [OF this] show ?thesis
    by (auto simp: engage_command_def autoPaginate_def split: sum.splits)
qed

text \<open>
  C5. For every page size from 1 on (the commands refuse any other before the loop),
  every server and so every total it reports, right, wrong or absent, and every cap, the
  operation returns: the loop never runs for ever. And whatever the total, when a page
  arrives (after \<open>n\<close> passes, with status \<^verbatim>\<open>ok\<close> or empty) that has fewer records
  than the page size, the loop ends with that page and returns the accumulated records
  (cut to the cap if a cap is set and reached), with no further request. The instances
  proved after it: a reported total 0 with 50 records and the page size 100, without cap,
  gives the 50 records after exactly one request; a reported total 500 with 100 records
  gives the 100 records after two requests.
\<close>

theorem total_never_loops:
  assumes "1 \<le> pageSize"
  shows "(\<exists>res. autoPaginate post um label bp limit pageSize w = Some res)
     \<and> (after_pages n post um label bp limit pageSize (loop_start, w) = Some (st, w')
          \<and> post (page_params bp st) w' = (Inr (Some resp), wa)
          \<and> readResponseBody resp = Inr body
          \<and> um body = Some pr
          \<and> (Status pr = ''ok'' \<or> Status pr = [])
          \<and> int (length (Results pr)) < pageSize
        \<longrightarrow> autoPaginate post um label bp limit pageSize w =
              Some (Inr (if 0 < limit \<and> limit \<le> int (length (allResults st @ Results pr))
                         then take (nat limit) (allResults st @ Results pr)
                         else allResults st @ Results pr,
                         if totalFromAPI st < 0 then Total pr else totalFromAPI st), wa))"
proof (intro conjI impI)
  show "\<exists>res. autoPaginate post um label bp limit pageSize w = Some res"
    unfolding autoPaginate_def using assms by (rule paginate_returns)
next
  assume h: "after_pages n post um label bp limit pageSize (loop_start, w) = Some (st, w')
          \<and> post (page_params bp st) w' = (Inr (Some resp), wa)
          \<and> readResponseBody resp = Inr body
          \<and> um body = Some pr
          \<and> (Status pr = ''ok'' \<or> Status pr = [])
          \<and> int (length (Results pr)) < pageSize"
  show "autoPaginate post um label bp limit pageSize w =
              Some (Inr (if 0 < limit \<and> limit \<le> int (length (allResults st @ Results pr))
                         then take (nat limit) (allResults st @ Results pr)
                         else allResults st @ Results pr,
                         if totalFromAPI st < 0 then Total pr else totalFromAPI st), wa)"
    by (rule short_page_stops [where n = n and w' = w' and resp = resp and body = body])
      (simp_all add: h)
qed

lemma first_page_overstated:
  "after_pages (Suc 0) counting_post overstated_total ''profiles'' [] 0 100 (loop_start, 0) =
     Some (\<lparr>allResults = map (Pair 0) [0..<100], sessionID = ''s1'', page = 1, totalFromAPI = 500\<rparr>, Suc 0)"
  by (simp add: iteration_def counting_post_def readResponseBody_def overstated_total_def
      engage_page_def wrap64_def Let_def)

theorem total_never_loops_witness:
  "autoPaginate counting_post wrong_total ''profiles'' [] 0 100 0 =
     Some (Inr (map (Pair 0) [0..<50], 0), 1)
   \<and> length (map (Pair (0::nat)) [0..<50::nat]) = 50
   \<and> autoPaginate counting_post overstated_total ''profiles'' [] 0 100 0 =
     Some (Inr (map (Pair 0) [0..<100], 500), 2)"
proof -
  have "autoPaginate counting_post wrong_total ''profiles'' [] 0 100 0 =
     Some (Inr (map (Pair 0) [0..<50], 0), 1)"
    using total_never_loops [where pageSize = 100 and post = counting_post and um = wrong_total
      and label = "''profiles''" and bp = "[]" and limit = 0 and w = 0
      and n = 0 and st = loop_start and w' = 0 and wa = 1 and body = "''first''"
      and pr = "engage_page 0 ''ok'' 0 50"
      and resp = "\<lparr>StatusCode = 200, Header = [], Body = Some ''first''\<rparr>", THEN conjunct2]
    by (simp add: counting_post_def readResponseBody_def wrong_total_def engage_page_def)
  moreover have "autoPaginate counting_post overstated_total ''profiles'' [] 0 100 0 =
     Some (Inr (map (Pair 0) [0..<100], 500), 2)"
    using total_never_loops [where pageSize = 100 and post = counting_post and um = overstated_total
      and label = "''profiles''" and bp = "[]" and limit = 0 and w = 0
      and n = "Suc 0"
      and st = "\<lparr>allResults = map (Pair 0) [0..<100], sessionID = ''s1'', page = 1, totalFromAPI = 500\<rparr>"
      and w' = "Suc 0" and wa = 2 and body = "''second''"
      and pr = "engage_page 1 ''ok'' 500 0"
      and resp = "\<lparr>StatusCode = 200, Header = [], Body = Some ''second''\<rparr>", THEN conjunct2]
      first_page_overstated
    by (simp add: counting_post_def readResponseBody_def overstated_total_def engage_page_def)
  ultimately show ?thesis by simp
qed

end
